theory Spec2Isabelle
  imports Main
begin

section \<open>Exceptions and the external collaborators of app.py\<close>

text \<open>
  The exceptions that app.py raises, catches or lets through. \<open>BaseException\<close> stands
  for a raised object that is not an instance of Python's \<open>Exception\<close> class (task
  cancellation, interpreter exit); every other constructor is an instance of
  \<open>Exception\<close>. \<open>HTTPException\<close> carries its status code and detail.
\<close>

datatype exn =
    WebSocketDisconnect
  | ValueError
  | JWTError
  | HTTPException nat string
  | OtherException string
  | BaseException string

text \<open>What \<^verbatim>\<open>except Exception\<close> catches.\<close>

fun is_Exception :: "exn \<Rightarrow> bool" where
  "is_Exception (BaseException _) = False"
| "is_Exception _ = True"

text \<open>
  A WebSocket object is compared and hashed by identity, so a handle is its identity.
\<close>

type_synonym websocket = nat

text \<open>The calls made on WebSocket objects, in the order they are made.\<close>

datatype call =
    Accept websocket
  | Close websocket nat
  | SendText websocket string

text \<open>
  The transport is outside the repository: what each awaited call on a WebSocket does
  (\<open>None\<close>: it returns, \<open>Some e\<close>: it raises \<open>e\<close>) is a parameter.
\<close>

record transport =
  accept :: "websocket \<Rightarrow> exn option"
  send_text :: "websocket \<Rightarrow> string \<Rightarrow> exn option"
  close :: "websocket \<Rightarrow> nat \<Rightarrow> exn option"

section \<open>ConnectionManager\<close>

record connection_manager =
  active_connections :: "websocket list"
  usernames :: "websocket \<rightharpoonup> string"

text \<open>\<^verbatim>\<open>ConnectionManager.__init__\<close>\<close>

definition ConnectionManager_init :: connection_manager where
  "ConnectionManager_init = \<lparr>active_connections = [], usernames = Map.empty\<rparr>"

text \<open>
  \<^verbatim>\<open>connect\<close>: when \<^verbatim>\<open>await websocket.accept()\<close> raises, nothing has been
  written yet. The result pairs what the call did (\<open>Inl e\<close>: raised \<open>e\<close>) with the
  manager it leaves behind.
\<close>

definition connect ::
  "transport \<Rightarrow> connection_manager \<Rightarrow> websocket \<Rightarrow> string \<Rightarrow> (exn + unit) \<times> connection_manager" where
  "connect tr self websocket username =
     (case accept tr websocket of
        Some e \<Rightarrow> (Inl e, self)
      | None \<Rightarrow>
          (Inr (),
           self\<lparr>active_connections := active_connections self @ [websocket],
                usernames := (usernames self)(websocket \<mapsto> username)\<rparr>))"

text \<open>
  \<^verbatim>\<open>disconnect\<close>: \<^verbatim>\<open>list.remove\<close> deletes the first occurrence and raises
  ValueError when there is none, before the \<^verbatim>\<open>pop\<close> runs;
  \<^verbatim>\<open>dict.pop(websocket, None)\<close> accepts a missing key.
\<close>

definition disconnect ::
  "connection_manager \<Rightarrow> websocket \<Rightarrow> (exn + unit) \<times> connection_manager" where
  "disconnect self websocket =
     (if websocket \<in> set (active_connections self)
      then (Inr (),
            self\<lparr>active_connections := remove1 websocket (active_connections self),
                 usernames := (usernames self)(websocket := None)\<rparr>)
      else (Inl ValueError, self))"

text \<open>
  \<^verbatim>\<open>broadcast\<close> as it runs when no other task is scheduled at any of its awaits:
  the list of connections then stays as it is from the first round to the last, and the
  \<^verbatim>\<open>for\<close> loop visits its elements in order, each send inside
  \<^verbatim>\<open>try ... except Exception: pass\<close>. A raised object that is not an
  \<open>Exception\<close> leaves the loop. The second component lists the sends attempted.
  The loop with other tasks running at its awaits is \<open>broadcast_from\<close> below, and
  the two agree when the schedule of the other tasks is empty.
\<close>

fun broadcast_loop :: "transport \<Rightarrow> string \<Rightarrow> websocket list \<Rightarrow> (exn + unit) \<times> call list" where
  "broadcast_loop tr text [] = (Inr (), [])"
| "broadcast_loop tr text (connection # rest) =
     (case send_text tr connection text of
        None \<Rightarrow>
          (case broadcast_loop tr text rest of (r, calls) \<Rightarrow> (r, SendText connection text # calls))
      | Some e \<Rightarrow>
          if is_Exception e
          then (case broadcast_loop tr text rest of (r, calls) \<Rightarrow> (r, SendText connection text # calls))
          else (Inl e, [SendText connection text]))"

text \<open>The f-string \<^verbatim>\<open>f"{sender}: {message}"\<close>.\<close>

definition format_message :: "string \<Rightarrow> string \<Rightarrow> string" where
  "format_message sender message = sender @ '': '' @ message"

definition broadcast ::
  "transport \<Rightarrow> connection_manager \<Rightarrow> string \<Rightarrow> string \<Rightarrow> (exn + unit) \<times> connection_manager \<times> call list" where
  "broadcast tr self message sender =
     (case broadcast_loop tr (format_message sender message) (active_connections self) of
        (r, calls) \<Rightarrow> (r, self, calls))"

text \<open>
  The calls that other tasks make on the shared manager. Tasks are coroutines on one
  event loop, so another task runs only while the running one is suspended in an
  \<^verbatim>\<open>await\<close>.
\<close>

datatype manager_op =
    Connect websocket string
  | Disconnect websocket
  | Broadcast string string

text \<open>The manager after one call, whether the call returned or raised.\<close>

fun apply_op :: "transport \<Rightarrow> connection_manager \<Rightarrow> manager_op \<Rightarrow> connection_manager" where
  "apply_op tr self (Connect websocket username) = snd (connect tr self websocket username)"
| "apply_op tr self (Disconnect websocket) = snd (disconnect self websocket)"
| "apply_op tr self (Broadcast message sender) = fst (snd (broadcast tr self message sender))"

fun apply_ops :: "transport \<Rightarrow> connection_manager \<Rightarrow> manager_op list \<Rightarrow> connection_manager" where
  "apply_ops tr self [] = self"
| "apply_ops tr self (op # ops) = apply_ops tr (apply_op tr self op) ops"

text \<open>
  The discipline under which websocket_endpoint uses the manager: connect for a handle
  that is not registered, disconnect for one that is.
\<close>

fun well_called :: "connection_manager \<Rightarrow> manager_op \<Rightarrow> bool" where
  "well_called self (Connect websocket username) = (websocket \<notin> set (active_connections self))"
| "well_called self (Disconnect websocket) = (websocket \<in> set (active_connections self))"
| "well_called self (Broadcast message sender) = True"

text \<open>A sequence of calls; \<open>None\<close> when one of them breaks the discipline.\<close>

fun run_ops :: "transport \<Rightarrow> connection_manager \<Rightarrow> manager_op list \<Rightarrow> connection_manager option" where
  "run_ops tr self [] = Some self"
| "run_ops tr self (op # ops) =
     (if well_called self op then run_ops tr (apply_op tr self op) ops else None)"

subsection \<open>broadcast with other tasks running at its await points\<close>

text \<open>
  \<^verbatim>\<open>for connection in self.active_connections\<close> iterates the list object itself:
  the iterator holds a position \<open>i\<close>, and each round reads the length and the element
  at \<open>i\<close> from the list as it is then. \<^verbatim>\<open>await connection.send_text(...)\<close> is
  the only suspension point of the loop. The schedule gives, for each await in turn, the
  calls that other tasks make on the manager while the broadcaster is suspended there;
  when the schedule is used up no other task runs any more. A call of another task that
  is itself a broadcast does not write to the manager.
\<close>

function broadcast_from ::
  "transport \<Rightarrow> string \<Rightarrow> nat \<Rightarrow> manager_op list list \<Rightarrow> connection_manager
     \<Rightarrow> (exn + unit) \<times> connection_manager \<times> call list" where
  "broadcast_from tr text i [] self =
     (if i < length (active_connections self)
      then (let connection = active_connections self ! i in
            case send_text tr connection text of
              None \<Rightarrow>
                (case broadcast_from tr text (Suc i) [] self of
                   (r, self', calls) \<Rightarrow> (r, self', SendText connection text # calls))
            | Some e \<Rightarrow>
                if is_Exception e
                then (case broadcast_from tr text (Suc i) [] self of
                        (r, self', calls) \<Rightarrow> (r, self', SendText connection text # calls))
                else (Inl e, self, [SendText connection text]))
      else (Inr (), self, []))"
| "broadcast_from tr text i (ops # sched) self =
     (if i < length (active_connections self)
      then (let connection = active_connections self ! i;
                during = apply_ops tr self ops in
            case send_text tr connection text of
              None \<Rightarrow>
                (case broadcast_from tr text (Suc i) sched during of
                   (r, self', calls) \<Rightarrow> (r, self', SendText connection text # calls))
            | Some e \<Rightarrow>
                if is_Exception e
                then (case broadcast_from tr text (Suc i) sched during of
                        (r, self', calls) \<Rightarrow> (r, self', SendText connection text # calls))
                else (Inl e, during, [SendText connection text]))
      else (Inr (), self, []))"
  by pat_completeness auto
termination
  by (relation "measures [\<lambda>(tr, text, i, sched, self). length sched,
                          \<lambda>(tr, text, i, sched, self). length (active_connections self) - i]")
     auto

declare broadcast_from.simps [simp del]

definition broadcast_interleaved ::
  "transport \<Rightarrow> connection_manager \<Rightarrow> string \<Rightarrow> string \<Rightarrow> manager_op list list
     \<Rightarrow> (exn + unit) \<times> connection_manager \<times> call list" where
  "broadcast_interleaved tr self message sender sched =
     broadcast_from tr (format_message sender message) 0 sched self"



text \<open>
  The manager as the broadcaster finds it when it issues its write number \<open>k\<close>
  (counted from 0): the other tasks have run at the \<open>k\<close> awaits before it.
\<close>

definition registry_at ::
  "transport \<Rightarrow> connection_manager \<Rightarrow> manager_op list list \<Rightarrow> nat \<Rightarrow> connection_manager" where
  "registry_at tr self sched k = apply_ops tr self (concat (take k sched))"


fun touches :: "websocket \<Rightarrow> manager_op \<Rightarrow> bool" where
  "touches c (Connect websocket username) = (websocket = c)"
| "touches c (Disconnect websocket) = (websocket = c)"
| "touches c (Broadcast message sender) = False"


section \<open>Security setup\<close>

definition SECRET_KEY :: string where
  "SECRET_KEY = ''your_secret_key''"

definition ALGORITHM :: string where
  "ALGORITHM = ''HS256''"

text \<open>
  python-jose and passlib are outside the repository and are parameters. A token's
  claims are a dict; \<open>jwt_decode\<close> also reads the clock (its first argument), which the
  library consults for the time-bound claims of a payload. passlib's bcrypt draws a
  fresh salt for every hash, so \<open>pwd_hash\<close> takes the salt drawn. Both calls of the
  password context can raise (\<open>Inl\<close>): \<^verbatim>\<open>hash\<close> for a password that the scheme
  rejects, \<^verbatim>\<open>verify\<close> for a second argument that is not a hash.
\<close>

type_synonym claims = "string \<rightharpoonup> string"

record jose =
  jwt_encode :: "claims \<Rightarrow> string \<Rightarrow> string \<Rightarrow> string"
  jwt_decode :: "nat \<Rightarrow> string \<Rightarrow> string \<Rightarrow> string list \<Rightarrow> exn + claims"

record crypt_context =
  pwd_hash :: "string \<Rightarrow> string \<Rightarrow> exn + string"
  pwd_verify :: "string \<Rightarrow> string \<Rightarrow> exn + bool"

definition verify_password :: "crypt_context \<Rightarrow> string \<Rightarrow> string \<Rightarrow> exn + bool" where
  "verify_password pwd_context plain_password hashed_password =
     pwd_verify pwd_context plain_password hashed_password"

definition get_password_hash :: "crypt_context \<Rightarrow> string \<Rightarrow> string \<Rightarrow> exn + string" where
  "get_password_hash pwd_context salt password = pwd_hash pwd_context salt password"

definition create_access_token :: "jose \<Rightarrow> claims \<Rightarrow> string" where
  "create_access_token jwt data = jwt_encode jwt data SECRET_KEY ALGORITHM"

text \<open>
  \<^verbatim>\<open>decode_access_token\<close>: \<^verbatim>\<open>except JWTError\<close> turns a JWTError of the library
  and the one raised for a payload without \<^verbatim>\<open>sub\<close> into \<open>None\<close>; any other
  exception of the library passes through.
\<close>

definition decode_access_token :: "jose \<Rightarrow> nat \<Rightarrow> string \<Rightarrow> exn + string option" where
  "decode_access_token jwt now token =
     (case jwt_decode jwt now token SECRET_KEY [ALGORITHM] of
        Inl e \<Rightarrow> if e = JWTError then Inr None else Inl e
      | Inr payload \<Rightarrow>
          (case payload ''sub'' of
             None \<Rightarrow> Inr None
           | Some username \<Rightarrow> Inr (Some username)))"

text \<open>A value of \<^verbatim>\<open>users_db\<close>: the dict with the keys username and hashed_password.\<close>

record user_record =
  rec_username :: string
  rec_hashed_password :: string

type_synonym users_db = "string \<rightharpoonup> user_record"

definition get_current_user :: "jose \<Rightarrow> nat \<Rightarrow> users_db \<Rightarrow> string \<Rightarrow> exn + string" where
  "get_current_user jwt now users_db token =
     (case decode_access_token jwt now token of
        Inl e \<Rightarrow> Inl e
      | Inr None \<Rightarrow> Inl (HTTPException 401 ''Invalid authentication credentials'')
      | Inr (Some username) \<Rightarrow>
          if username \<notin> dom users_db
          then Inl (HTTPException 401 ''Invalid authentication credentials'')
          else Inr username)"

section \<open>API routes\<close>

text \<open>The request model \<^verbatim>\<open>User\<close>.\<close>

record user =
  user_username :: string
  user_password :: string

text \<open>
  \<^verbatim>\<open>register\<close>: the result pairs the response (\<open>Inl\<close>: the exception that leaves
  the route, \<open>Inr\<close>: the status code of the route and the body) with the store it
  leaves behind. The hash is computed before the store is written and is not guarded:
  when it raises, the exception leaves the route and nothing has been stored.
\<close>

definition register ::
  "crypt_context \<Rightarrow> string \<Rightarrow> users_db \<Rightarrow> user \<Rightarrow> (exn + nat \<times> string) \<times> users_db" where
  "register pwd_context salt users_db user =
     (if user_username user \<in> dom users_db
      then (Inl (HTTPException 400 ''Username already registered''), users_db)
      else (case get_password_hash pwd_context salt (user_password user) of
              Inl e \<Rightarrow> (Inl e, users_db)
            | Inr hashed \<Rightarrow>
                (Inr (201, ''User registered''),
                 users_db(user_username user \<mapsto>
                   \<lparr>rec_username = user_username user, rec_hashed_password = hashed\<rparr>))))"

section \<open>The WebSocket endpoint\<close>

text \<open>The module's global state.\<close>

record app_state =
  app_users_db :: users_db
  manager :: connection_manager

text \<open>
  What \<^verbatim>\<open>await websocket.receive_text()\<close> does, call by call: the inbound script
  of one connection. When the script is used up the task stays suspended in the await.
\<close>

datatype recv = Text string | RecvRaises exn

datatype status = Returned | Raised exn | Pending

text \<open>
  The handler \<^verbatim>\<open>except WebSocketDisconnect: manager.disconnect(websocket)\<close> around
  the loop.
\<close>

definition on_exception ::
  "connection_manager \<Rightarrow> websocket \<Rightarrow> exn \<Rightarrow> status \<times> connection_manager" where
  "on_exception self websocket e =
     (if e = WebSocketDisconnect
      then (case disconnect self websocket of
              (Inl e', self') \<Rightarrow> (Raised e', self')
            | (Inr _, self') \<Rightarrow> (Returned, self'))
      else (Raised e, self))"

fun receive_loop ::
  "transport \<Rightarrow> websocket \<Rightarrow> string \<Rightarrow> connection_manager \<Rightarrow> recv list
     \<Rightarrow> status \<times> connection_manager \<times> call list" where
  "receive_loop tr websocket username self [] = (Pending, self, [])"
| "receive_loop tr websocket username self (Text data # inbound) =
     (case broadcast tr self data username of
        (Inl e, self', calls) \<Rightarrow>
          (case on_exception self' websocket e of (st, self'') \<Rightarrow> (st, self'', calls))
      | (Inr _, self', calls) \<Rightarrow>
          (case receive_loop tr websocket username self' inbound of
             (st, self'', calls') \<Rightarrow> (st, self'', calls @ calls')))"
| "receive_loop tr websocket username self (RecvRaises e # inbound) =
     (case on_exception self websocket e of (st, self') \<Rightarrow> (st, self', []))"

definition websocket_endpoint ::
  "jose \<Rightarrow> nat \<Rightarrow> transport \<Rightarrow> app_state \<Rightarrow> websocket \<Rightarrow> string \<Rightarrow> recv list
     \<Rightarrow> status \<times> app_state \<times> call list" where
  "websocket_endpoint jwt now tr app websocket token inbound =
     (case decode_access_token jwt now token of
        Inl e \<Rightarrow> (Raised e, app, [])
      | Inr None \<Rightarrow>
          (case close tr websocket 1008 of
             None \<Rightarrow> (Returned, app, [Close websocket 1008])
           | Some e \<Rightarrow> (Raised e, app, [Close websocket 1008]))
      | Inr (Some username) \<Rightarrow>
          (case connect tr (manager app) websocket username of
             (Inl e, self) \<Rightarrow> (Raised e, app\<lparr>manager := self\<rparr>, [Accept websocket])
           | (Inr _, self) \<Rightarrow>
               (case receive_loop tr websocket username self inbound of
                  (st, self', calls) \<Rightarrow> (st, app\<lparr>manager := self'\<rparr>, Accept websocket # calls))))"

section \<open>The invariant of the manager, and concrete states and collaborators\<close>

text \<open>The two structures of the manager name the same connections, each once.\<close>

definition registry_inv :: "connection_manager \<Rightarrow> bool" where
  "registry_inv self \<longleftrightarrow>
     set (active_connections self) = dom (usernames self) \<and> distinct (active_connections self)"

text \<open>Three sessions: alice on connection 1, bob on 2, carol on 3.\<close>

definition three_clients :: connection_manager where
  "three_clients =
     \<lparr>active_connections = [1, 2, 3],
      usernames = [1 \<mapsto> ''alice'', 2 \<mapsto> ''bob'', 3 \<mapsto> ''carol'']\<rparr>"

text \<open>A transport on which every call returns.\<close>

definition live_transport :: transport where
  "live_transport =
     \<lparr>accept = (\<lambda>websocket. None),
      send_text = (\<lambda>websocket text. None),
      close = (\<lambda>websocket code. None)\<rparr>"

text \<open>A transport on which every write to connection 2 raises.\<close>

definition dead_peer :: transport where
  "dead_peer =
     \<lparr>accept = (\<lambda>websocket. None),
      send_text = (\<lambda>websocket text.
        if websocket = 2 then Some (OtherException ''connection closed'') else None),
      close = (\<lambda>websocket code. None)\<rparr>"

text \<open>
  A small stand-in for the token library: a token is the algorithm, a dot, the key and the
  subject; decoding accepts a token only under one of the allowed algorithms and the same
  key.
\<close>

definition toy_jose :: jose where
  "toy_jose =
     \<lparr>jwt_encode = (\<lambda>data key alg.
        alg @ ''.'' @ key @ (case data ''sub'' of None \<Rightarrow> ''-'' | Some u \<Rightarrow> ''+'' @ u)),
      jwt_decode = (\<lambda>now token key algs.
        case List.find (\<lambda>alg. take (length (alg @ ''.'' @ key)) token = alg @ ''.'' @ key) algs of
          None \<Rightarrow> Inl JWTError
        | Some alg \<Rightarrow>
            (case drop (length (alg @ ''.'' @ key)) token of
               [] \<Rightarrow> Inl JWTError
             | c # u \<Rightarrow>
                 if c = CHR ''+'' then Inr [''sub'' \<mapsto> u]
                 else if c = CHR ''-'' \<and> u = [] then Inr Map.empty
                 else Inl JWTError))\<rparr>"

text \<open>
  A small stand-in for the password context. Like passlib's bcrypt it refuses to hash a
  password that holds a NUL character or is longer than 4096 characters, and refuses to
  verify against a string that is not one of its hashes.
\<close>

definition toy_crypt :: crypt_context where
  "toy_crypt =
     \<lparr>pwd_hash = (\<lambda>salt password.
        if CHR 0x00 \<in> set password \<or> 4096 < length password then Inl ValueError
        else Inr (''$2b$'' @ salt @ ''$'' @ rev password)),
      pwd_verify = (\<lambda>plain hashed.
        if take 4 hashed \<noteq> ''$2b$'' then Inl ValueError
        else Inr (length plain \<le> length hashed
                  \<and> drop (length hashed - length plain) hashed = rev plain))\<rparr>"

definition bob_alone :: connection_manager where
  "bob_alone = \<lparr>active_connections = [2], usernames = [2 \<mapsto> ''bob'']\<rparr>"

definition lobby :: app_state where
  "lobby = \<lparr>app_users_db = Map.empty, manager = three_clients\<rparr>"



definition second_leaves :: "manager_op list list" where
  "second_leaves = [] # [Disconnect 2] # []"


section \<open>Properties of the loops\<close>


lemma broadcast_keeps_manager: "fst (snd (broadcast tr self message sender)) = self"
  by (simp add: broadcast_def split: prod.splits)

lemma registry_inv_init: "registry_inv ConnectionManager_init"
  by (simp add: registry_inv_def ConnectionManager_init_def)

lemma registry_inv_apply_op:
  "registry_inv self \<Longrightarrow> well_called self op \<Longrightarrow> registry_inv (apply_op tr self op)"
proof (cases op)
  case (Connect ws u)
  assume "registry_inv self" "well_called self op"
  with Connect show ?thesis
    by (auto simp: registry_inv_def connect_def split: option.splits)
next
  case (Disconnect ws)
  assume "registry_inv self" "well_called self op"
  with Disconnect show ?thesis
    by (auto simp: registry_inv_def disconnect_def)
next
  case (Broadcast m s)
  assume "registry_inv self"
  with Broadcast show ?thesis
    by (simp add: broadcast_keeps_manager)
qed

lemma registry_inv_run_ops:
  "registry_inv self \<Longrightarrow> run_ops tr self ops = Some self' \<Longrightarrow> registry_inv self'"
proof (induction ops arbitrary: self)
  case Nil
  then show ?case by simp
next
  case (Cons op ops)
  then show ?case
    by (auto split: if_splits intro: registry_inv_apply_op)
qed












text \<open>The calls of other tasks, round by round.\<close>

lemma apply_ops_append: "apply_ops tr self (xs @ ys) = apply_ops tr (apply_ops tr self xs) ys"
  by (induction xs arbitrary: self) auto

lemma registry_at_0: "registry_at tr self sched 0 = self"
  by (simp add: registry_at_def)

lemma registry_at_Nil: "registry_at tr self [] k = self"
  by (simp add: registry_at_def)

lemma registry_at_Suc_Cons:
  "registry_at tr self (ops # sched) (Suc k) = registry_at tr (apply_ops tr self ops) sched k"
  by (simp add: registry_at_def apply_ops_append)

text \<open>One round of the loop.\<close>

lemma broadcast_from_end:
  "\<not> i < length (active_connections self) \<Longrightarrow> broadcast_from tr t i sched self = (Inr (), self, [])"
  by (cases sched) (simp_all add: broadcast_from.simps)

lemma broadcast_from_Nil_caught:
  assumes "i < length (active_connections self)"
    and "\<forall>e. send_text tr (active_connections self ! i) t = Some e \<longrightarrow> is_Exception e"
  shows "broadcast_from tr t i [] self =
           (case broadcast_from tr t (Suc i) [] self of
              (r, self', calls) \<Rightarrow> (r, self', SendText (active_connections self ! i) t # calls))"
  using assms
  by (subst broadcast_from.simps(1)) (simp add: Let_def split: option.splits)

lemma broadcast_from_Cons_caught:
  assumes "i < length (active_connections self)"
    and "\<forall>e. send_text tr (active_connections self ! i) t = Some e \<longrightarrow> is_Exception e"
  shows "broadcast_from tr t i (ops # sched) self =
           (case broadcast_from tr t (Suc i) sched (apply_ops tr self ops) of
              (r, self', calls) \<Rightarrow> (r, self', SendText (active_connections self ! i) t # calls))"
  using assms
  by (subst broadcast_from.simps(2)) (simp add: Let_def split: option.splits)

lemma broadcast_from_Nil_uncaught:
  assumes "i < length (active_connections self)"
    and "send_text tr (active_connections self ! i) t = Some e" and "\<not> is_Exception e"
  shows "broadcast_from tr t i [] self = (Inl e, self, [SendText (active_connections self ! i) t])"
  using assms
  by (subst broadcast_from.simps(1)) (simp add: Let_def)

lemma broadcast_from_Cons_uncaught:
  assumes "i < length (active_connections self)"
    and "send_text tr (active_connections self ! i) t = Some e" and "\<not> is_Exception e"
  shows "broadcast_from tr t i (ops # sched) self =
           (Inl e, apply_ops tr self ops, [SendText (active_connections self ! i) t])"
  using assms
  by (subst broadcast_from.simps(2)) (simp add: Let_def)

text \<open>Induction along the rounds of the loop.\<close>

lemma rounds_induct [case_names Nil Cons]:
  assumes nil: "\<And>i self. (i < length (active_connections self) \<Longrightarrow> P (Suc i) [] self) \<Longrightarrow> P i [] self"
    and cons: "\<And>i ops sched self.
                 (\<And>j self'. P j sched self') \<Longrightarrow> P i (ops # sched) self"
  shows "P i sched self"
proof -
  have alone: "P j [] m" for j m
  proof (induction "length (active_connections m) - j" arbitrary: j)
    case 0
    show ?case
    proof (rule nil)
      assume "j < length (active_connections m)"
      with 0 show "P (Suc j) [] m" by simp
    qed
  next
    case (Suc n)
    show ?case
    proof (rule nil)
      assume "j < length (active_connections m)"
      with Suc.hyps(2) have "n = length (active_connections m) - Suc j" by simp
      then show "P (Suc j) [] m" by (rule Suc.hyps(1))
    qed
  qed
  show ?thesis
  proof (induction sched arbitrary: i self)
    case Nil
    show ?case by (rule alone)
  next
    case (Cons ops sched)
    show ?case by (rule cons) (rule Cons.IH)
  qed
qed





text \<open>Induction over the results of the loop: one case per way a round can go.\<close>

lemma broadcast_from_induct [case_names End Caught_Nil Caught_Cons Uncaught_Nil Uncaught_Cons]:
  assumes "\<And>i sched self. \<not> i < length (active_connections self) \<Longrightarrow> P i sched self (Inr (), self, [])"
    and "\<And>i self r m calls.
           \<lbrakk>i < length (active_connections self);
            \<forall>e. send_text tr (active_connections self ! i) t = Some e \<longrightarrow> is_Exception e;
            broadcast_from tr t (Suc i) [] self = (r, m, calls);
            P (Suc i) [] self (r, m, calls)\<rbrakk>
           \<Longrightarrow> P i [] self (r, m, SendText (active_connections self ! i) t # calls)"
    and "\<And>i ops sched self r m calls.
           \<lbrakk>i < length (active_connections self);
            \<forall>e. send_text tr (active_connections self ! i) t = Some e \<longrightarrow> is_Exception e;
            broadcast_from tr t (Suc i) sched (apply_ops tr self ops) = (r, m, calls);
            P (Suc i) sched (apply_ops tr self ops) (r, m, calls)\<rbrakk>
           \<Longrightarrow> P i (ops # sched) self (r, m, SendText (active_connections self ! i) t # calls)"
    and "\<And>i self e.
           \<lbrakk>i < length (active_connections self);
            send_text tr (active_connections self ! i) t = Some e; \<not> is_Exception e\<rbrakk>
           \<Longrightarrow> P i [] self (Inl e, self, [SendText (active_connections self ! i) t])"
    and "\<And>i ops sched self e.
           \<lbrakk>i < length (active_connections self);
            send_text tr (active_connections self ! i) t = Some e; \<not> is_Exception e\<rbrakk>
           \<Longrightarrow> P i (ops # sched) self
                 (Inl e, apply_ops tr self ops, [SendText (active_connections self ! i) t])"
  shows "P i sched self (broadcast_from tr t i sched self)"
proof (induction i sched self rule: rounds_induct)
  case (Nil i self)
  show ?case
  proof (cases "i < length (active_connections self)")
    case False
    then show ?thesis by (simp add: broadcast_from_end assms(1))
  next
    case True
    note lt = this
    show ?thesis
    proof (cases "\<forall>e. send_text tr (active_connections self ! i) t = Some e \<longrightarrow> is_Exception e")
      case True
      obtain r m calls where rest: "broadcast_from tr t (Suc i) [] self = (r, m, calls)"
        by (cases "broadcast_from tr t (Suc i) [] self") auto
      from Nil[OF lt] rest have "P (Suc i) [] self (r, m, calls)" by simp
      from assms(2)[OF lt True rest this] show ?thesis
        by (simp add: broadcast_from_Nil_caught[OF lt True] rest)
    next
      case False
      then obtain e where e: "send_text tr (active_connections self ! i) t = Some e" "\<not> is_Exception e"
        by blast
      from assms(4)[OF lt e] show ?thesis
        by (simp add: broadcast_from_Nil_uncaught[OF lt e])
    qed
  qed
next
  case (Cons i ops sched self)
  show ?case
  proof (cases "i < length (active_connections self)")
    case False
    then show ?thesis by (simp add: broadcast_from_end assms(1))
  next
    case True
    note lt = this
    show ?thesis
    proof (cases "\<forall>e. send_text tr (active_connections self ! i) t = Some e \<longrightarrow> is_Exception e")
      case True
      obtain r m calls
        where rest: "broadcast_from tr t (Suc i) sched (apply_ops tr self ops) = (r, m, calls)"
        by (cases "broadcast_from tr t (Suc i) sched (apply_ops tr self ops)") auto
      from Cons[of "Suc i" "apply_ops tr self ops"] rest
      have "P (Suc i) sched (apply_ops tr self ops) (r, m, calls)" by simp
      from assms(3)[OF lt True rest this] show ?thesis
        by (simp add: broadcast_from_Cons_caught[OF lt True] rest)
    next
      case False
      then obtain e where e: "send_text tr (active_connections self ! i) t = Some e" "\<not> is_Exception e"
        by blast
      from assms(5)[OF lt e] show ?thesis
        by (simp add: broadcast_from_Cons_uncaught[OF lt e])
    qed
  qed
qed

lemma broadcast_from_manager:
  "fst (snd (broadcast_from tr t i sched self))
     = registry_at tr self sched (length (snd (snd (broadcast_from tr t i sched self))))"
  by (rule broadcast_from_induct
        [where P = "\<lambda>i sched self res. fst (snd res) = registry_at tr self sched (length (snd (snd res)))"])
     (simp_all add: registry_at_0 registry_at_Nil registry_at_Suc_Cons)













text \<open>What the calls of other tasks do to one connection.\<close>

lemma untouched_apply_op:
  "\<not> touches c op \<Longrightarrow>
     (c \<in> set (active_connections (apply_op tr self op))) = (c \<in> set (active_connections self))
     \<and> usernames (apply_op tr self op) c = usernames self c"
proof (cases op)
  case (Connect ws u)
  assume "\<not> touches c op"
  with Connect show ?thesis by (auto simp: connect_def split: option.splits)
next
  case (Disconnect ws)
  assume "\<not> touches c op"
  with Disconnect show ?thesis by (auto simp: disconnect_def)
next
  case (Broadcast m s)
  then show ?thesis by (simp add: broadcast_keeps_manager)
qed

lemma untouched_apply_ops:
  "\<forall>op \<in> set ops. \<not> touches c op \<Longrightarrow>
     (c \<in> set (active_connections (apply_ops tr self ops))) = (c \<in> set (active_connections self))
     \<and> usernames (apply_ops tr self ops) c = usernames self c"
proof (induction ops arbitrary: self)
  case Nil
  then show ?case by simp
next
  case (Cons op ops)
  then have "\<not> touches c op" and rest: "\<forall>op \<in> set ops. \<not> touches c op" by simp_all
  from untouched_apply_op[OF this(1), of tr self] Cons.IH[OF rest, of "apply_op tr self op"]
  show ?case by simp
qed

lemma stays_apply_op:
  "c \<in> set (active_connections self) \<Longrightarrow> op \<noteq> Disconnect c \<Longrightarrow>
     c \<in> set (active_connections (apply_op tr self op))"
proof (cases op)
  case (Connect ws u)
  assume "c \<in> set (active_connections self)"
  with Connect show ?thesis by (auto simp: connect_def split: option.splits)
next
  case (Disconnect ws)
  assume "c \<in> set (active_connections self)" "op \<noteq> Disconnect c"
  with Disconnect show ?thesis by (auto simp: disconnect_def)
next
  case (Broadcast m s)
  assume "c \<in> set (active_connections self)"
  with Broadcast show ?thesis by (simp add: broadcast_keeps_manager)
qed

lemma stays_apply_ops:
  "c \<in> set (active_connections self) \<Longrightarrow> Disconnect c \<notin> set ops \<Longrightarrow>
     c \<in> set (active_connections (apply_ops tr self ops))"
proof (induction ops arbitrary: self)
  case Nil
  then show ?case by simp
next
  case (Cons op ops)
  then have "op \<noteq> Disconnect c" "Disconnect c \<notin> set ops" by auto
  from Cons.IH[OF stays_apply_op[OF Cons.prems(1) this(1)] this(2)] show ?case by simp
qed

lemma set_concat_take: "set (concat (take k xss)) \<subseteq> set (concat xss)"
  using set_take_subset[of k xss] by auto

section \<open>The claims\<close>

subsection \<open>C1\<close>




subsection \<open>C2\<close>




subsection \<open>C3\<close>

text \<open>
  The write to connection 2 fails during a broadcast in which no other task runs, and
  connection 2 is still in both structures of the manager afterwards.
\<close>

theorem broadcast_keeps_failing_connection_counterexample:
  "send_text dead_peer 2 (format_message ''alice'' ''hi'') = Some (OtherException ''connection closed'')
   \<and> fst (broadcast_interleaved dead_peer three_clients ''hi'' ''alice'' []) = Inr ()
   \<and> 2 \<in> set (active_connections (fst (snd (broadcast_interleaved dead_peer three_clients
          ''hi'' ''alice'' []))))
   \<and> usernames (fst (snd (broadcast_interleaved dead_peer three_clients ''hi'' ''alice'' []))) 2
       = Some ''bob''"
  by (simp add: broadcast_interleaved_def broadcast_from.simps three_clients_def dead_peer_def
      format_message_def Let_def)

text \<open>
  C3, as the code has it. A delivery failure triggers no deregistration: broadcast writes
  nothing to the manager. The manager after the fan-out is the manager at its start with
  the calls applied that other tasks made at its awaits, one round per write. So a
  connection registered at the start, failing or not, is absent afterwards only if
  another task called disconnect for it during the fan-out; and a connection on which no
  other task called connect or disconnect is registered afterwards exactly if it was
  before, under the same username.
\<close>

theorem broadcast_never_deregisters:
  "fst (snd (broadcast_interleaved tr self message sender sched))
     = registry_at tr self sched (length (snd (snd (broadcast_interleaved tr self message sender sched))))
   \<and> (c \<in> set (active_connections self)
        \<and> c \<notin> set (active_connections (fst (snd (broadcast_interleaved tr self message sender sched))))
      \<longrightarrow> Disconnect c \<in> set (concat sched))
   \<and> ((\<forall>op \<in> set (concat sched). \<not> touches c op)
      \<longrightarrow> (c \<in> set (active_connections (fst (snd (broadcast_interleaved tr self message sender sched)))))
            = (c \<in> set (active_connections self))
          \<and> usernames (fst (snd (broadcast_interleaved tr self message sender sched))) c
              = usernames self c)"
proof -
  let ?n = "length (snd (snd (broadcast_interleaved tr self message sender sched)))"
  let ?ops = "concat (take ?n sched)"
  have after: "fst (snd (broadcast_interleaved tr self message sender sched)) = apply_ops tr self ?ops"
    using broadcast_from_manager[of tr "format_message sender message" 0 sched self]
    by (simp add: broadcast_interleaved_def registry_at_def)
  have sub: "set ?ops \<subseteq> set (concat sched)"
    by (rule set_concat_take)
  have gone: "Disconnect c \<in> set (concat sched)"
    if "c \<in> set (active_connections self)" "c \<notin> set (active_connections (apply_ops tr self ?ops))"
    using that stays_apply_ops[of c self ?ops tr] sub by blast
  have same: "(c \<in> set (active_connections (apply_ops tr self ?ops))) = (c \<in> set (active_connections self))
              \<and> usernames (apply_ops tr self ?ops) c = usernames self c"
    if "\<forall>op \<in> set (concat sched). \<not> touches c op"
  proof -
    from that sub have "\<forall>op \<in> set ?ops. \<not> touches c op" by blast
    then show ?thesis by (rule untouched_apply_ops)
  qed
  from gone same show ?thesis
    unfolding after registry_at_def by blast
qed

theorem broadcast_never_deregisters_witness:
  "send_text dead_peer 2 (format_message ''alice'' ''hi'') = Some (OtherException ''connection closed'')
   \<and> 2 \<in> set (active_connections three_clients)
   \<and> 2 \<notin> set (active_connections (fst (snd (broadcast_interleaved dead_peer three_clients
          ''hi'' ''alice'' second_leaves))))
   \<and> Disconnect 2 \<in> set (concat second_leaves)
   \<and> 3 \<in> set (active_connections (fst (snd (broadcast_interleaved dead_peer three_clients
          ''hi'' ''alice'' second_leaves))))
   \<and> usernames (fst (snd (broadcast_interleaved dead_peer three_clients ''hi'' ''alice''
          second_leaves))) 3 = Some ''carol''"
proof -
  have f: "send_text dead_peer 2 (format_message ''alice'' ''hi'') = Some (OtherException ''connection closed'')"
    by (simp add: dead_peer_def)
  have before: "2 \<in> set (active_connections three_clients)" "3 \<in> set (active_connections three_clients)"
    "usernames three_clients 3 = Some ''carol''"
    by (simp_all add: three_clients_def)
  have after: "2 \<notin> set (active_connections (fst (snd (broadcast_interleaved dead_peer three_clients
                 ''hi'' ''alice'' second_leaves))))"
    by (simp add: broadcast_interleaved_def broadcast_from.simps three_clients_def dead_peer_def
        second_leaves_def disconnect_def format_message_def Let_def)
  have u: "\<forall>op \<in> set (concat second_leaves). \<not> touches 3 op"
    by (simp add: second_leaves_def)
  have "Disconnect 2 \<in> set (concat second_leaves)"
    using before(1) after
      broadcast_never_deregisters[of dead_peer three_clients "''hi''" "''alice''" second_leaves 2]
    by blast
  moreover have "3 \<in> set (active_connections (fst (snd (broadcast_interleaved dead_peer three_clients
          ''hi'' ''alice'' second_leaves))))
      \<and> usernames (fst (snd (broadcast_interleaved dead_peer three_clients ''hi'' ''alice''
          second_leaves))) 3 = Some ''carol''"
    using u before(2,3)
      broadcast_never_deregisters[of dead_peer three_clients "''hi''" "''alice''" second_leaves 3,
        THEN conjunct2, THEN conjunct2]
    by simp
  ultimately show ?thesis
    using f before(1) after by blast
qed

subsection \<open>C4\<close>

text \<open>
  C4. disconnect for a handle that is not registered should return normally and change
  nothing. Here connection 1 is connected and disconnected, which gives back the empty
  manager, and the second disconnect of the same handle raises ValueError from
  \<^verbatim>\<open>list.remove\<close>, although the \<^verbatim>\<open>pop\<close> beside it is written to accept a
  missing key.
\<close>

theorem disconnect_twice_raises:
  "disconnect (snd (disconnect (snd (connect live_transport ConnectionManager_init 1 ''alice'')) 1)) 1
     = (Inl ValueError, ConnectionManager_init)"
  by (simp add: connect_def disconnect_def live_transport_def ConnectionManager_init_def)

subsection \<open>C5\<close>




subsection \<open>C7\<close>

text \<open>
  The username bob is absent, and the password holds a NUL character, which the
  password context refuses to hash: the route does not answer 201, the ValueError leaves
  it, and nothing is stored.
\<close>

theorem register_hash_raises_counterexample:
  "''bob'' \<notin> dom (Map.empty :: users_db)
   \<and> register toy_crypt ''s1'' Map.empty
        \<lparr>user_username = ''bob'', user_password = [CHR ''a'', CHR 0x00, CHR ''b'']\<rparr>
       = (Inl ValueError, Map.empty)"
  by (simp add: register_def get_password_hash_def toy_crypt_def)

text \<open>
  C7, as the code has it. Whatever the credential store: registering a username that is
  present raises HTTPException 400 and leaves the store as it was, stored hash included.
  Registering a username that is absent, when the password context returns a hash for
  the password, answers 201, stores under that username the record with that hash, and
  changes no other entry; the record has no field for the plaintext, so the plaintext is
  stored only where the hash returned is the password itself. When the password context
  raises instead, the exception leaves the route and the store is as it was.
\<close>

theorem register_rejects_duplicate:
  "(user_username user \<in> dom users_db
      \<longrightarrow> register pwd_context salt users_db user
            = (Inl (HTTPException 400 ''Username already registered''), users_db))
   \<and> (user_username user \<notin> dom users_db
      \<longrightarrow> (\<forall>hashed. pwd_hash pwd_context salt (user_password user) = Inr hashed
            \<longrightarrow> fst (register pwd_context salt users_db user) = Inr (201, ''User registered'')
                \<and> snd (register pwd_context salt users_db user) (user_username user)
                    = Some \<lparr>rec_username = user_username user, rec_hashed_password = hashed\<rparr>
                \<and> (\<forall>other. other \<noteq> user_username user
                      \<longrightarrow> snd (register pwd_context salt users_db user) other = users_db other)
                \<and> (hashed \<noteq> user_password user
                      \<longrightarrow> (\<forall>r. snd (register pwd_context salt users_db user) (user_username user) = Some r
                            \<longrightarrow> rec_hashed_password r \<noteq> user_password user)))
          \<and> (\<forall>e. pwd_hash pwd_context salt (user_password user) = Inl e
            \<longrightarrow> register pwd_context salt users_db user = (Inl e, users_db)))"
  by (auto simp: register_def get_password_hash_def)

theorem register_rejects_duplicate_witness:
  "fst (register toy_crypt ''s1'' Map.empty \<lparr>user_username = ''bob'', user_password = ''secret123''\<rparr>)
     = Inr (201, ''User registered'')
   \<and> snd (register toy_crypt ''s1'' Map.empty \<lparr>user_username = ''bob'', user_password = ''secret123''\<rparr>) ''bob''
       = Some \<lparr>rec_username = ''bob'', rec_hashed_password = ''$2b$s1$321terces''\<rparr>
   \<and> register toy_crypt ''s2''
        (snd (register toy_crypt ''s1'' Map.empty \<lparr>user_username = ''bob'', user_password = ''secret123''\<rparr>))
        \<lparr>user_username = ''bob'', user_password = ''hunter2''\<rparr>
       = (Inl (HTTPException 400 ''Username already registered''),
          snd (register toy_crypt ''s1'' Map.empty \<lparr>user_username = ''bob'', user_password = ''secret123''\<rparr>))
   \<and> pwd_hash toy_crypt ''s3'' [CHR ''a'', CHR 0x00, CHR ''b''] = Inl ValueError
   \<and> register toy_crypt ''s3'' Map.empty
        \<lparr>user_username = ''carol'', user_password = [CHR ''a'', CHR 0x00, CHR ''b'']\<rparr>
       = (Inl ValueError, Map.empty)"
proof -
  let ?bob = "\<lparr>user_username = ''bob'', user_password = ''secret123''\<rparr>"
  let ?again = "\<lparr>user_username = ''bob'', user_password = ''hunter2''\<rparr>"
  let ?carol = "\<lparr>user_username = ''carol'', user_password = [CHR ''a'', CHR 0x00, CHR ''b'']\<rparr>"
  let ?db = "snd (register toy_crypt ''s1'' Map.empty ?bob)"
  have fresh: "user_username ?bob \<notin> dom (Map.empty :: users_db)"
    "user_username ?carol \<notin> dom (Map.empty :: users_db)"
    by simp_all
  have hashed: "pwd_hash toy_crypt ''s1'' (user_password ?bob) = Inr ''$2b$s1$321terces''"
    by (simp add: toy_crypt_def)
  have refused: "pwd_hash toy_crypt ''s3'' (user_password ?carol) = Inl ValueError"
    by (simp add: toy_crypt_def)
  have first: "fst (register toy_crypt ''s1'' Map.empty ?bob) = Inr (201, ''User registered'')
               \<and> ?db (user_username ?bob)
                   = Some \<lparr>rec_username = user_username ?bob, rec_hashed_password = ''$2b$s1$321terces''\<rparr>"
    using fresh(1) hashed register_rejects_duplicate[of ?bob Map.empty toy_crypt "''s1''"] by blast
  then have taken: "user_username ?again \<in> dom ?db"
    by (simp add: domIff)
  have second: "register toy_crypt ''s2'' ?db ?again
                  = (Inl (HTTPException 400 ''Username already registered''), ?db)"
    using taken register_rejects_duplicate[of ?again ?db toy_crypt "''s2''"] by blast
  have third: "register toy_crypt ''s3'' Map.empty ?carol = (Inl ValueError, Map.empty)"
    using fresh(2) refused register_rejects_duplicate[of ?carol Map.empty toy_crypt "''s3''"] by blast
  from first second third refused show ?thesis
    by simp
qed

subsection \<open>C8\<close>

text \<open>
  C8. When decode_access_token gives None for the token of an upgrade request, the
  endpoint calls close with code 1008 on the connection and nothing else: it does not
  accept the connection, does not call connect, reads nothing from it and broadcasts
  nothing, and the manager and the rest of the state are as before.
\<close>

theorem endpoint_refuses_invalid_token:
  assumes "decode_access_token jwt now token = Inr None"
  shows "websocket_endpoint jwt now tr app websocket token inbound =
           ((case close tr websocket 1008 of None \<Rightarrow> Returned | Some e \<Rightarrow> Raised e),
            app, [Close websocket 1008])"
  using assms by (simp add: websocket_endpoint_def split: option.splits)

theorem endpoint_refuses_invalid_token_witness:
  "decode_access_token toy_jose 0 ''garbage'' = Inr None
   \<and> websocket_endpoint toy_jose 0 live_transport lobby 7 ''garbage'' [Text ''hello'']
       = (Returned, lobby, [Close 7 1008])
   \<and> 7 \<notin> set (active_connections (manager lobby))"
proof -
  have h: "decode_access_token toy_jose 0 ''garbage'' = Inr None"
    by (simp add: decode_access_token_def toy_jose_def SECRET_KEY_def ALGORITHM_def)
  have c: "close live_transport 7 1008 = None"
    by (simp add: live_transport_def)
  have r: "7 \<notin> set (active_connections (manager lobby))"
    by (simp add: lobby_def three_clients_def)
  show ?thesis
    using h r endpoint_refuses_invalid_token[OF h, of live_transport lobby 7 "[Text ''hello'']"]
    by (simp add: c)
qed

subsection \<open>C9\<close>

text \<open>
  C9. After every sequence of connect, disconnect and broadcast calls from the empty
  manager, with connect called only for handles that are not registered and disconnect
  only for handles that are: the connections in active_connections are exactly the keys
  of usernames, none occurs twice, and a broadcast leaves both structures as they are.
\<close>

theorem manager_structures_agree:
  assumes "run_ops tr ConnectionManager_init ops = Some self"
  shows "set (active_connections self) = dom (usernames self)
         \<and> distinct (active_connections self)
         \<and> active_connections (fst (snd (broadcast tr self message sender))) = active_connections self
         \<and> usernames (fst (snd (broadcast tr self message sender))) = usernames self"
  using registry_inv_run_ops[OF registry_inv_init assms]
  by (simp add: registry_inv_def broadcast_keeps_manager)

theorem manager_structures_agree_witness:
  "run_ops live_transport ConnectionManager_init
     [Connect 1 ''alice'', Connect 2 ''bob'', Broadcast ''hi'' ''alice'', Disconnect 1] = Some bob_alone
   \<and> set (active_connections bob_alone) = dom (usernames bob_alone)
   \<and> distinct (active_connections bob_alone)
   \<and> active_connections (fst (snd (broadcast live_transport bob_alone ''bye'' ''bob''))) = [2]"
proof -
  have u: "(Map.empty(1 \<mapsto> ''alice'', 2 \<mapsto> ''bob''))(1 := None) = [2 :: websocket \<mapsto> ''bob'']"
    by (rule ext) simp
  have r: "run_ops live_transport ConnectionManager_init
             [Connect 1 ''alice'', Connect 2 ''bob'', Broadcast ''hi'' ''alice'', Disconnect 1] = Some bob_alone"
    by (simp add: ConnectionManager_init_def connect_def disconnect_def broadcast_keeps_manager
        live_transport_def bob_alone_def u)
  show ?thesis
    using r manager_structures_agree[OF r, of "''bye''" "''bob''"]
    by (simp add: bob_alone_def)
qed

subsection \<open>C10\<close>

text \<open>
  C10. For a token that decodes to a subject which is not a key of users_db:
  get_current_user raises HTTPException 401, while websocket_endpoint, once the accept
  returns, registers the connection under that subject and waits for its first message.
\<close>

theorem endpoint_admits_unregistered_subject:
  assumes "decode_access_token jwt now token = Inr (Some u)"
    and "u \<notin> dom (app_users_db app)"
    and "accept tr websocket = None"
  shows "get_current_user jwt now (app_users_db app) token
           = Inl (HTTPException 401 ''Invalid authentication credentials'')
         \<and> websocket_endpoint jwt now tr app websocket token [] =
             (Pending,
              app\<lparr>manager := (manager app)
                     \<lparr>active_connections := active_connections (manager app) @ [websocket],
                      usernames := (usernames (manager app))(websocket \<mapsto> u)\<rparr>\<rparr>,
              [Accept websocket])"
  using assms by (simp add: get_current_user_def websocket_endpoint_def connect_def)

theorem endpoint_admits_unregistered_subject_witness:
  "decode_access_token toy_jose 0 (create_access_token toy_jose [''sub'' \<mapsto> ''mallory'']) = Inr (Some ''mallory'')
   \<and> ''mallory'' \<notin> dom (app_users_db lobby)
   \<and> get_current_user toy_jose 0 (app_users_db lobby) (create_access_token toy_jose [''sub'' \<mapsto> ''mallory''])
       = Inl (HTTPException 401 ''Invalid authentication credentials'')
   \<and> websocket_endpoint toy_jose 0 live_transport lobby 7
        (create_access_token toy_jose [''sub'' \<mapsto> ''mallory'']) [] =
       (Pending,
        lobby\<lparr>manager := (manager lobby)
                 \<lparr>active_connections := active_connections (manager lobby) @ [7],
                  usernames := (usernames (manager lobby))(7 \<mapsto> ''mallory'')\<rparr>\<rparr>,
        [Accept 7])"
proof -
  let ?token = "create_access_token toy_jose [''sub'' \<mapsto> ''mallory'']"
  have d: "decode_access_token toy_jose 0 ?token = Inr (Some ''mallory'')"
    by (simp add: decode_access_token_def create_access_token_def toy_jose_def)
  have n: "''mallory'' \<notin> dom (app_users_db lobby)"
    by (simp add: lobby_def)
  have a: "accept live_transport 7 = None"
    by (simp add: live_transport_def)
  show ?thesis
    using d n endpoint_admits_unregistered_subject[OF d n a] by blast
qed

end
